theory Spec2Isabelle
  imports Complex_Main "HOL-Library.Word"
begin

section \<open>Numeric model\<close>

text \<open>
  The arrays of \<^verbatim>\<open>src/main.py\<close> hold floating-point numbers. A float is modelled as a
  real number or one of the three special values of IEEE 754. Arithmetic on finite
  values is the exact arithmetic of the reals: rounding and the sign of zero are not
  modelled, and overflow to infinity is modelled where the values are not bounded, in
  the normalisation of the raw depth map. The special values follow IEEE 754: a division of zero
  by zero is \<open>NaN\<close>, a division of a non-zero number by zero is an infinity, \<open>NaN\<close>
  propagates through every operation and every comparison with \<open>NaN\<close> is false.
\<close>

datatype fval = Fin real | PInf | NInf | NaN

type_synonym 'a grid = "'a list list"

datatype py_exn =
    ValueError string
  | ZeroDivisionError string
  | IndexError string
  | OverflowError string
  | AttributeError string
  | CvError string
  | ExternalError string
  | HTTPException nat string

fun is_finite :: "fval \<Rightarrow> bool" where
  "is_finite (Fin x) = True"
| "is_finite v = False"

fun fneg :: "fval \<Rightarrow> fval" where
  "fneg (Fin x) = Fin (- x)"
| "fneg PInf = NInf"
| "fneg NInf = PInf"
| "fneg NaN = NaN"

fun fadd :: "fval \<Rightarrow> fval \<Rightarrow> fval" where
  "fadd (Fin x) (Fin y) = Fin (x + y)"
| "fadd NaN v = NaN"
| "fadd v NaN = NaN"
| "fadd PInf NInf = NaN"
| "fadd NInf PInf = NaN"
| "fadd PInf v = PInf"
| "fadd NInf v = NInf"
| "fadd v PInf = PInf"
| "fadd v NInf = NInf"

definition fsub :: "fval \<Rightarrow> fval \<Rightarrow> fval" where
  "fsub a b = fadd a (fneg b)"

fun fsgn :: "fval \<Rightarrow> int" where
  "fsgn (Fin x) = (if x < 0 then - 1 else if x = 0 then 0 else 1)"
| "fsgn PInf = 1"
| "fsgn NInf = - 1"
| "fsgn NaN = 0"

definition inf_of_sign :: "int \<Rightarrow> fval" where
  "inf_of_sign s = (if s < 0 then NInf else PInf)"

fun fmul :: "fval \<Rightarrow> fval \<Rightarrow> fval" where
  "fmul (Fin x) (Fin y) = Fin (x * y)"
| "fmul NaN v = NaN"
| "fmul v NaN = NaN"
| "fmul a b = (if fsgn a = 0 \<or> fsgn b = 0 then NaN else inf_of_sign (fsgn a * fsgn b))"

fun fdiv :: "fval \<Rightarrow> fval \<Rightarrow> fval" where
  "fdiv (Fin x) (Fin y) =
     (if y \<noteq> 0 then Fin (x / y)
      else if x = 0 then NaN
      else if 0 < x then PInf else NInf)"
| "fdiv NaN v = NaN"
| "fdiv v NaN = NaN"
| "fdiv (Fin x) v = Fin 0"
| "fdiv a (Fin y) = inf_of_sign (if y < 0 then - fsgn a else fsgn a)"
| "fdiv a b = NaN"

fun fabs :: "fval \<Rightarrow> fval" where
  "fabs (Fin x) = Fin \<bar>x\<bar>"
| "fabs PInf = PInf"
| "fabs NInf = PInf"
| "fabs NaN = NaN"

fun fle :: "fval \<Rightarrow> fval \<Rightarrow> bool" where
  "fle (Fin x) (Fin y) = (x \<le> y)"
| "fle NaN v = False"
| "fle v NaN = False"
| "fle NInf v = True"
| "fle v PInf = True"
| "fle a b = False"

fun flt :: "fval \<Rightarrow> fval \<Rightarrow> bool" where
  "flt (Fin x) (Fin y) = (x < y)"
| "flt NaN v = False"
| "flt v NaN = False"
| "flt PInf v = False"
| "flt v NInf = False"
| "flt a b = True"

text \<open>
  \<^verbatim>\<open>ndarray.min()\<close> and \<^verbatim>\<open>ndarray.max()\<close> return \<open>NaN\<close> as soon as one
  element is \<open>NaN\<close>, and raise \<^verbatim>\<open>ValueError\<close> on an array without elements.
\<close>

definition fmin2 :: "fval \<Rightarrow> fval \<Rightarrow> fval" where
  "fmin2 a b = (if a = NaN \<or> b = NaN then NaN else if fle a b then a else b)"

definition fmax2 :: "fval \<Rightarrow> fval \<Rightarrow> fval" where
  "fmax2 a b = (if a = NaN \<or> b = NaN then NaN else if fle a b then b else a)"

fun np_min :: "fval list \<Rightarrow> py_exn + fval" where
  "np_min [] =
     Inl (ValueError ''zero-size array to reduction operation minimum which has no identity'')"
| "np_min (x # xs) = Inr (foldl fmin2 x xs)"

fun np_max :: "fval list \<Rightarrow> py_exn + fval" where
  "np_max [] =
     Inl (ValueError ''zero-size array to reduction operation maximum which has no identity'')"
| "np_max (x # xs) = Inr (foldl fmax2 x xs)"

section \<open>Depth normalisation\<close>

text \<open>
  The last statement of \<^verbatim>\<open>_estimate_depth\<close> (lines 75 to 78):
  \<^verbatim>\<open>depth_map = (depth_map - depth_map.min()) / (depth_map.max() - depth_map.min())\<close>.
  The network and the interpolation before it are external; their output is the
  argument. The array is a \<^verbatim>\<open>float32\<close> array, whose values the network does not
  bound, so the two subtractions and the division are \<^verbatim>\<open>float32\<close> operations that
  can overflow: a result whose magnitude reaches \<open>2\<^sup>1\<^sup>2\<^sup>8 - 2\<^sup>1\<^sup>0\<^sup>3\<close>, half
  a unit in the last place above the greatest \<^verbatim>\<open>float32\<close> number, is an infinity.
  Below that bound the result is kept exact.
\<close>

definition float32_overflow :: real where
  "float32_overflow = 2 ^ 128 - 2 ^ 103"

fun to_float32 :: "fval \<Rightarrow> fval" where
  "to_float32 (Fin x) =
     (if float32_overflow \<le> x then PInf
      else if x \<le> - float32_overflow then NInf
      else Fin x)"
| "to_float32 v = v"

definition normalize_depth :: "fval grid \<Rightarrow> py_exn + fval grid" where
  "normalize_depth depth_map =
     (case np_min (concat depth_map) of
        Inl e \<Rightarrow> Inl e
      | Inr mn \<Rightarrow>
         (case np_max (concat depth_map) of
            Inl e \<Rightarrow> Inl e
          | Inr mx \<Rightarrow>
              Inr (map (map (\<lambda>x. to_float32 (fdiv (to_float32 (fsub x mn))
                                                (to_float32 (fsub mx mn)))))
                     depth_map)))"

definition fgrid :: "real grid \<Rightarrow> fval grid" where
  "fgrid g = map (map Fin) g"

definition in_unit :: "fval \<Rightarrow> bool" where
  "in_unit v = (case v of Fin x \<Rightarrow> 0 \<le> x \<and> x \<le> 1 | _ \<Rightarrow> False)"

section \<open>Focus plane\<close>

text \<open>
  \<^verbatim>\<open>_find_subject_focus_plane\<close> (lines 80 to 101). The argument is a numpy array.
  \<^verbatim>\<open>_estimate_depth\<close> passes the output of the network after \<^verbatim>\<open>.squeeze()\<close>, which
  drops every axis of length one: the depth map of an image that is one pixel high or
  one pixel wide arrives as an array of one dimension, and that of an image of one pixel
  as an array of no dimension. Line 82 unpacks the shape into two names, which raises
  \<^verbatim>\<open>ValueError\<close> unless the array has two dimensions. An array of two dimensions is the
  list of its rows; its width is the length of the first row. A Python slice
  \<^verbatim>\<open>a[s:e]\<close> keeps the elements from index \<open>s\<close> up to, not including, \<open>e\<close>.
\<close>

datatype ndarray = Array0 fval | Array1 "fval list" | Array2 "fval grid"

definition py_slice :: "nat \<Rightarrow> nat \<Rightarrow> 'a list \<Rightarrow> 'a list" where
  "py_slice s e xs = take (e - s) (drop s xs)"

definition grid_width :: "'a grid \<Rightarrow> nat" where
  "grid_width g = (case g of [] \<Rightarrow> 0 | row # _ \<Rightarrow> length row)"

definition squeeze :: "fval grid \<Rightarrow> ndarray" where
  "squeeze g =
     (if length g = 1
      then (if grid_width g = 1 then Array0 (hd (hd g)) else Array1 (hd g))
      else if grid_width g = 1 then Array1 (map hd g)
      else Array2 g)"

definition center_region :: "'a grid \<Rightarrow> 'a grid" where
  "center_region depth_map =
     (let height = length depth_map;
          width = grid_width depth_map;
          center_h_start = height div 4;
          center_h_end = 3 * height div 4;
          center_w_start = width div 4;
          center_w_end = 3 * width div 4
      in map (py_slice center_w_start center_w_end)
           (py_slice center_h_start center_h_end depth_map))"

text \<open>
  \<^verbatim>\<open>np.median\<close>: the middle element of the sorted values, the mean of the two middle
  elements when their number is even, and \<open>NaN\<close> for an empty array.
\<close>

definition np_median :: "real list \<Rightarrow> fval" where
  "np_median xs =
     (let s = sort xs; n = length xs
      in if n = 0 then NaN
         else if odd n then Fin (s ! (n div 2))
         else Fin ((s ! (n div 2 - 1) + s ! (n div 2)) / 2))"

text \<open>
  \<^verbatim>\<open>np.histogram(a, bins=50)\<close> is a function of the numpy library. It returns the
  counts of 50 bins and their 51 edges, and raises \<^verbatim>\<open>ValueError\<close> when the range of
  the values is not finite. The bin in which it counts a value that lies within rounding
  distance of an edge depends on the element type of the array and on the version of
  the library, so the function is a parameter of the model, of the type \<open>histogram\<close>:
  from the finite values to the counts and the edges. \<^verbatim>\<open>np.argmax\<close> is the first index
  that holds the greatest count, and raises \<^verbatim>\<open>ValueError\<close> on an empty sequence.
\<close>

type_synonym histogram = "real list \<Rightarrow> nat list \<times> real list"

fun first_index :: "'a \<Rightarrow> 'a list \<Rightarrow> nat" where
  "first_index v [] = 0"
| "first_index v (x # xs) = (if x = v then 0 else Suc (first_index v xs))"

definition np_argmax :: "nat list \<Rightarrow> nat" where
  "np_argmax hist = first_index (Max (set hist)) hist"

fun the_fin :: "fval \<Rightarrow> real" where
  "the_fin (Fin x) = x"
| "the_fin v = 0"

text \<open>
  The median is computed before the histogram and raises nothing; the histogram raises
  when a value of the region is not finite. The model makes the test for finite values
  first and computes the median of the finite values afterwards.
\<close>

definition find_subject_focus_plane :: "histogram \<Rightarrow> ndarray \<Rightarrow> py_exn + fval" where
  "find_subject_focus_plane np_histogram depth_map =
     (case depth_map of
        Array0 v \<Rightarrow> Inl (ValueError ''not enough values to unpack (expected 2, got 0)'')
      | Array1 vs \<Rightarrow> Inl (ValueError ''not enough values to unpack (expected 2, got 1)'')
      | Array2 rows \<Rightarrow>
         (let center = concat (center_region rows)
          in if \<exists>v \<in> set center. \<not> is_finite v
             then Inl (ValueError ''autodetected range is not finite'')
             else
               let region = map the_fin center;
                   focus_depth = np_median region;
                   hist = fst (np_histogram region);
                   bin_edges = snd (np_histogram region);
                   most_common_bin = np_argmax hist
               in if hist = []
                  then Inl (ValueError ''attempt to get argmax of an empty sequence'')
                  else if length bin_edges \<le> most_common_bin + 1
                  then Inl (IndexError ''index out of bounds'')
                  else
                    let focus_depth_alt =
                          (bin_edges ! most_common_bin + bin_edges ! (most_common_bin + 1)) / 2
                    in Inr (fdiv (fadd focus_depth (Fin focus_depth_alt)) (Fin 2))))"

text \<open>
  Values of \<^verbatim>\<open>np.histogram\<close> used in the examples. \<open>linspace\<close> is
  \<^verbatim>\<open>np.linspace\<close> in exact arithmetic, from which the edges are taken. For an array of
  \<open>n\<close> values that all equal \<open>c\<close> the library widens the range to \<open>(c - 0.5, c + 0.5)\<close>;
  for \<open>c = 0\<close> and \<open>c = 1\<close> the edge of index 25 is computed exactly and is \<open>c\<close>, and the
  \<open>n\<close> values are counted in the bin of index 25. For the array \<open>[0, 1]\<close> the range is
  \<open>(0, 1)\<close>, the first value is counted in the first bin and the second in the last.
\<close>

definition linspace :: "real \<Rightarrow> real \<Rightarrow> nat \<Rightarrow> real list" where
  "linspace start stop num =
     map (\<lambda>j. start + real j * ((stop - start) / real (num - 1))) [0..<num]"

definition histogram_of_constant :: "real \<Rightarrow> histogram" where
  "histogram_of_constant c a =
     ((replicate 50 0)[25 := length a], linspace (c - 1 / 2) (c + 1 / 2) 51)"


section \<open>Gaussian smoothing of a float array\<close>








section \<open>Blur mask\<close>

text \<open>
  \<^verbatim>\<open>_create_blur_mask\<close> (lines 103 to 127). \<open>blur_intensity\<close> is the array of that name
  just before it is smoothed (line 122); \<open>create_blur_mask\<close> is the whole function.
  \<^verbatim>\<open>np.max\<close> raises on an array without elements.
\<close>

definition distance_from_focus :: "fval grid \<Rightarrow> fval \<Rightarrow> fval grid" where
  "distance_from_focus depth_map focus_plane =
     map (map (\<lambda>d. fabs (fsub d focus_plane))) depth_map"

definition blur_intensity :: "fval grid \<Rightarrow> fval \<Rightarrow> fval \<Rightarrow> py_exn + fval grid" where
  "blur_intensity depth_map focus_plane focus_range =
     (let distance = distance_from_focus depth_map focus_plane
      in case np_max (concat distance) of
           Inl e \<Rightarrow> Inl e
         | Inr max_distance \<Rightarrow>
             let raw = (if flt (Fin 0) max_distance
                        then map (map (\<lambda>d. fdiv d max_distance)) distance
                        else map (map (\<lambda>d. Fin 0)) depth_map)
             in Inr (map2 (map2 (\<lambda>b d. if fle d focus_range then Fin 0 else b)) raw distance))"


definition rectangular :: "'a grid \<Rightarrow> bool" where
  "rectangular g = (\<forall>row \<in> set g. length row = grid_width g)"





definition max_distance :: "real grid \<Rightarrow> real \<Rightarrow> real" where
  "max_distance g focus_plane = Max (set (map (\<lambda>x. \<bar>x - focus_plane\<bar>) (concat g)))"



section \<open>Blending the sharp and the blurred image\<close>

text \<open>
  \<^verbatim>\<open>_apply_depth_blur_optimized\<close> (lines 158 to 173). The image is the array that
  \<^verbatim>\<open>np.array(image.convert('RGB'))\<close> makes: rows of pixels of three channels of type
  \<^verbatim>\<open>uint8\<close>. The mask is an array of \<^verbatim>\<open>float32\<close>; the products of a mask value and a
  channel are floats.
\<close>

datatype 'a rgb = RGB (red: 'a) (green: 'a) (blue: 'a)

type_synonym image = "8 word rgb grid"

definition zip_rgb :: "('a \<Rightarrow> 'b \<Rightarrow> 'c) \<Rightarrow> 'a rgb \<Rightarrow> 'b rgb \<Rightarrow> 'c rgb" where
  "zip_rgb f p q = RGB (f (red p) (red q)) (f (green p) (green q)) (f (blue p) (blue q))"

definition to_f32 :: "8 word \<Rightarrow> fval" where
  "to_f32 c = Fin (real (unat c))"

text \<open>
  \<^verbatim>\<open>astype(np.uint8)\<close> drops the fractional part of a float. For a value outside
  \<open>0 \<dots> 255\<close> and for a value that is not finite the conversion is not defined by the
  language; the model takes the value modulo 256, and 0 for a value that is not finite.
\<close>

definition trunc :: "real \<Rightarrow> int" where
  "trunc x = (if 0 \<le> x then \<lfloor>x\<rfloor> else \<lceil>x\<rceil>)"

fun astype_uint8 :: "fval \<Rightarrow> 8 word" where
  "astype_uint8 (Fin x) = word_of_int (trunc x)"
| "astype_uint8 v = 0"

text \<open>
  An operation on two arrays follows the broadcasting rule of numpy: two axes match when
  their lengths are equal or one of them is 1, in which case the array is repeated along
  that axis; otherwise the operation raises \<^verbatim>\<open>ValueError\<close>. The third axis of the mask
  is made of three copies of the mask and matches the three channels.
\<close>

definition broadcast_dim :: "nat \<Rightarrow> nat \<Rightarrow> nat option" where
  "broadcast_dim a b =
     (if a = b then Some a else if a = 1 then Some b else if b = 1 then Some a else None)"

definition stretch :: "nat \<Rightarrow> 'a list \<Rightarrow> 'a list" where
  "stretch n xs = (if length xs = n then xs else replicate n (hd xs))"

definition np_zip2 :: "('a \<Rightarrow> 'b \<Rightarrow> 'c) \<Rightarrow> 'a grid \<Rightarrow> 'b grid \<Rightarrow> py_exn + 'c grid" where
  "np_zip2 f a b =
     (case (broadcast_dim (length a) (length b), broadcast_dim (grid_width a) (grid_width b)) of
        (Some h, Some w) \<Rightarrow>
          Inr (map2 (map2 f) (stretch h (map (stretch w) a)) (stretch h (map (stretch w) b)))
      | _ \<Rightarrow> Inl (ValueError ''operands could not be broadcast together''))"

text \<open>
  \<^verbatim>\<open>cv2.GaussianBlur\<close> on the \<^verbatim>\<open>uint8\<close> image is a function of the OpenCV library and a
  parameter of the model: it takes the size of the kernel, the standard deviation and
  the image, and returns an image or raises.
\<close>

type_synonym gaussian = "int \<Rightarrow> real \<Rightarrow> image \<Rightarrow> py_exn + image"

definition apply_depth_blur_optimized ::
    "gaussian \<Rightarrow> image \<Rightarrow> fval grid \<Rightarrow> int \<Rightarrow> py_exn + image" where
  "apply_depth_blur_optimized GaussianBlur image_np blur_mask max_blur_radius =
     (let kernel_size = max_blur_radius * 2 + 1
      in case GaussianBlur kernel_size (real_of_int max_blur_radius / 3) image_np of
           Inl e \<Rightarrow> Inl e
         | Inr blurred_image \<Rightarrow>
            (case np_zip2 (\<lambda>m. map_rgb (\<lambda>c. fmul (fsub (Fin 1) m) (to_f32 c)))
                    blur_mask image_np of
               Inl e \<Rightarrow> Inl e
             | Inr sharp_part \<Rightarrow>
                (case np_zip2 (\<lambda>m. map_rgb (\<lambda>c. fmul m (to_f32 c)))
                        blur_mask blurred_image of
                   Inl e \<Rightarrow> Inl e
                 | Inr blurred_part \<Rightarrow>
                    (case np_zip2 (zip_rgb fadd) sharp_part blurred_part of
                       Inl e \<Rightarrow> Inl e
                     | Inr result \<Rightarrow> Inr (map (map (map_rgb astype_uint8)) result)))))"

text \<open>
  Notions used to state the properties of the blend: the value of one channel of one
  pixel written directly from the mask value and the two inputs; the conversion that the
  specification describes, rounding to the nearest integer and clamping to \<open>0 \<dots> 255\<close>;
  two arrays of the same shape; and an output channel that is the blend without its
  fractional part, up to a margin of one thousandth for the rounding of the \<^verbatim>\<open>float32\<close>
  operations, which the model does not compute.
\<close>

definition blend_channel :: "fval \<Rightarrow> 8 word \<Rightarrow> 8 word \<Rightarrow> 8 word" where
  "blend_channel m c d =
     astype_uint8 (fadd (fmul (fsub (Fin 1) m) (to_f32 c)) (fmul m (to_f32 d)))"

definition round_clamp_uint8 :: "real \<Rightarrow> 8 word" where
  "round_clamp_uint8 x = word_of_int (max 0 (min 255 (round x)))"

definition same_shape :: "'a grid \<Rightarrow> 'b grid \<Rightarrow> bool" where
  "same_shape a b = (map length a = map length b)"

definition truncated_blend :: "real \<Rightarrow> 8 word \<Rightarrow> 8 word \<Rightarrow> 8 word \<Rightarrow> bool" where
  "truncated_blend m c d out =
     (let v = (1 - m) * real (unat c) + m * real (unat d)
      in v - 1 - 1 / 1000 < real (unat out) \<and> real (unat out) \<le> v + 1 / 1000)"

section \<open>The per-pixel variant of the blend\<close>

text \<open>
  \<^verbatim>\<open>_apply_depth_blur\<close> (lines 129 to 156). \<open>blur_radii\<close> is
  \<^verbatim>\<open>range(1, max_blur_radius + 1, 2)\<close>, and \<open>blur_levels_loop\<close> the loop that blurs the
  image once for each of these radii and converts the results to \<^verbatim>\<open>float32\<close>; the
  first call of the library that raises ends the function.
\<close>

definition blur_radii :: "int \<Rightarrow> int list" where
  "blur_radii max_blur_radius =
     map (\<lambda>k. 1 + 2 * int k) [0..<nat ((max_blur_radius + 1) div 2)]"

fun blur_levels_loop :: "gaussian \<Rightarrow> image \<Rightarrow> int list \<Rightarrow> py_exn + fval rgb grid list" where
  "blur_levels_loop GaussianBlur image_np [] = Inr []"
| "blur_levels_loop GaussianBlur image_np (i # rest) =
     (case GaussianBlur (i * 2 + 1) (real_of_int i / 3) image_np of
        Inl e \<Rightarrow> Inl e
      | Inr blurred \<Rightarrow>
         (case blur_levels_loop GaussianBlur image_np rest of
            Inl e \<Rightarrow> Inl e
          | Inr blur_levels \<Rightarrow> Inr (map (map (map_rgb to_f32)) blurred # blur_levels)))"

text \<open>
  \<^verbatim>\<open>int\<close> of a float drops the fractional part and raises on a value that is not
  finite. An index of a Python list counts from the end when it is negative, and raises
  \<^verbatim>\<open>IndexError\<close> outside the list; an index of an array raises \<^verbatim>\<open>IndexError\<close>
  outside the array (the indices of the loops are never negative).
\<close>

fun py_int :: "fval \<Rightarrow> py_exn + int" where
  "py_int (Fin x) = Inr (trunc x)"
| "py_int NaN = Inl (ValueError ''cannot convert float NaN to integer'')"
| "py_int v = Inl (OverflowError ''cannot convert float infinity to integer'')"

definition py_index :: "'a list \<Rightarrow> int \<Rightarrow> py_exn + 'a" where
  "py_index xs i =
     (if 0 \<le> i \<and> i < int (length xs) then Inr (xs ! nat i)
      else if - int (length xs) \<le> i \<and> i < 0 then Inr (xs ! nat (i + int (length xs)))
      else Inl (IndexError ''list index out of range''))"

definition np_index2 :: "'a grid \<Rightarrow> nat \<Rightarrow> nat \<Rightarrow> py_exn + 'a" where
  "np_index2 a y x =
     (if y < length a \<and> x < length (a ! y) then Inr (a ! y ! x)
      else Inl (IndexError ''index is out of bounds''))"

text \<open>
  The body of the two loops over the pixels of the mask, for the pixel \<open>(y, x)\<close>, on the
  array \<open>result\<close>; and a \<^verbatim>\<open>for\<close> loop whose body may raise.
\<close>

definition blend_pixel :: "fval \<Rightarrow> 8 word rgb \<Rightarrow> fval rgb \<Rightarrow> fval rgb" where
  "blend_pixel alpha p q =
     zip_rgb fadd (map_rgb (\<lambda>c. fmul (fsub (Fin 1) alpha) (to_f32 c)) p) (map_rgb (fmul alpha) q)"

definition blur_step ::
    "fval rgb grid list \<Rightarrow> image \<Rightarrow> fval grid \<Rightarrow> nat \<times> nat \<Rightarrow> fval rgb grid
      \<Rightarrow> py_exn + fval rgb grid" where
  "blur_step blur_levels image_np blur_mask yx result =
     (let y = fst yx; x = snd yx; blur_intensity = blur_mask ! y ! x
      in if flt (Fin 0) blur_intensity
         then
           (case py_int (fmul blur_intensity (Fin (real (length blur_levels)))) of
              Inl e \<Rightarrow> Inl e
            | Inr k \<Rightarrow>
               (let blur_level_idx = min k (int (length blur_levels) - 1)
                in case np_index2 image_np y x of
                     Inl e \<Rightarrow> Inl e
                   | Inr p \<Rightarrow>
                      (case py_index blur_levels blur_level_idx of
                         Inl e \<Rightarrow> Inl e
                       | Inr level \<Rightarrow>
                          (case np_index2 level y x of
                             Inl e \<Rightarrow> Inl e
                           | Inr q \<Rightarrow>
                              Inr (result[y := (result ! y)[x := blend_pixel blur_intensity p q]])))))
         else Inr result)"

fun py_for :: "('a \<Rightarrow> 's \<Rightarrow> py_exn + 's) \<Rightarrow> 'a list \<Rightarrow> 's \<Rightarrow> py_exn + 's" where
  "py_for body [] s = Inr s"
| "py_for body (a # rest) s =
     (case body a s of Inl e \<Rightarrow> Inl e | Inr s' \<Rightarrow> py_for body rest s')"

text \<open>
  The function: \<open>result\<close> starts as the image converted to \<^verbatim>\<open>float32\<close>, the loops
  visit the pixels of the mask row by row, and the result is converted to
  \<^verbatim>\<open>uint8\<close>.
\<close>

definition apply_depth_blur ::
    "gaussian \<Rightarrow> image \<Rightarrow> fval grid \<Rightarrow> int \<Rightarrow> py_exn + image" where
  "apply_depth_blur GaussianBlur image_np blur_mask max_blur_radius =
     (let result = map (map (map_rgb to_f32)) image_np
      in case blur_levels_loop GaussianBlur image_np (blur_radii max_blur_radius) of
           Inl e \<Rightarrow> Inl e
         | Inr blur_levels \<Rightarrow>
            (let height = length blur_mask; width = grid_width blur_mask
             in case py_for (blur_step blur_levels image_np blur_mask)
                       (List.product [0..<height] [0..<width]) result of
                  Inl e \<Rightarrow> Inl e
                | Inr result' \<Rightarrow> Inr (map (map (map_rgb astype_uint8)) result')))"

section \<open>The request: core and endpoint\<close>

















section \<open>Normalisation: lemmas\<close>

lemma foldl_fmin2_Fin:
  "foldl fmin2 (Fin a) (map Fin xs) = Fin (Min (set (a # xs)))"
proof (induction xs arbitrary: a)
  case Nil
  show ?case by simp
next
  case (Cons x xs)
  have "fmin2 (Fin a) (Fin x) = Fin (min a x)"
    by (simp add: fmin2_def min_def)
  moreover have "Min (set (min a x # xs)) = Min (set (a # x # xs))"
    by (cases "xs = []") (simp_all add: min.assoc)
  ultimately show ?case using Cons.IH [of "min a x"] by simp
qed

lemma foldl_fmax2_Fin:
  "foldl fmax2 (Fin a) (map Fin xs) = Fin (Max (set (a # xs)))"
proof (induction xs arbitrary: a)
  case Nil
  show ?case by simp
next
  case (Cons x xs)
  have "fmax2 (Fin a) (Fin x) = Fin (max a x)"
    by (simp add: fmax2_def max_def)
  moreover have "Max (set (max a x # xs)) = Max (set (a # x # xs))"
    by (cases "xs = []") (simp_all add: max.assoc)
  ultimately show ?case using Cons.IH [of "max a x"] by simp
qed

lemma np_min_Fin:
  "xs \<noteq> [] \<Longrightarrow> np_min (map Fin xs) = Inr (Fin (Min (set xs)))"
  by (cases xs) (simp_all add: foldl_fmin2_Fin del: set_simps)

lemma np_max_Fin:
  "xs \<noteq> [] \<Longrightarrow> np_max (map Fin xs) = Inr (Fin (Max (set xs)))"
  by (cases xs) (simp_all add: foldl_fmax2_Fin del: set_simps)

lemma concat_fgrid: "concat (fgrid g) = map Fin (concat g)"
  by (simp add: fgrid_def map_concat)

lemma fsub_Fin: "fsub (Fin a) (Fin b) = Fin (a - b)"
  by (simp add: fsub_def)

lemma float32_overflow_pos: "1 < float32_overflow"
  by (simp add: float32_overflow_def)

lemma to_float32_Fin:
  "- float32_overflow < x \<Longrightarrow> x < float32_overflow \<Longrightarrow> to_float32 (Fin x) = Fin x"
  by simp

lemma normalize_depth_fgrid:
  assumes "concat g \<noteq> []"
  shows "normalize_depth (fgrid g) =
     Inr (map (map (\<lambda>x. to_float32 (fdiv (to_float32 (Fin (x - Min (set (concat g)))))
        (to_float32 (Fin (Max (set (concat g)) - Min (set (concat g)))))))) g)"
proof -
  define mn where "mn = Min (set (concat g))"
  define mx where "mx = Max (set (concat g))"
  have a: "np_min (concat (fgrid g)) = Inr (Fin mn)"
    unfolding mn_def concat_fgrid using assms by (rule np_min_Fin)
  have b: "np_max (concat (fgrid g)) = Inr (Fin mx)"
    unfolding mx_def concat_fgrid using assms by (rule np_max_Fin)
  have "normalize_depth (fgrid g) =
      Inr (map (map (\<lambda>x. to_float32 (fdiv (to_float32 (fsub x (Fin mn)))
         (to_float32 (fsub (Fin mx) (Fin mn)))))) (fgrid g))"
    unfolding normalize_depth_def a b by simp
  also have "map (map (\<lambda>x. to_float32 (fdiv (to_float32 (fsub x (Fin mn)))
         (to_float32 (fsub (Fin mx) (Fin mn)))))) (fgrid g) =
      map (map (\<lambda>x. to_float32 (fdiv (to_float32 (Fin (x - mn))) (to_float32 (Fin (mx - mn)))))) g"
    unfolding fgrid_def fsub_Fin by (simp add: comp_def fsub_Fin del: to_float32.simps)
  finally show ?thesis unfolding mn_def mx_def .
qed

lemma concat_map_map: "concat (map (map f) g) = map f (concat g)"
  by (simp add: map_concat)

section \<open>Normalisation: claims\<close>

text \<open>
  C1. The claim: a depth map whose values are all finite and equal is normalised to a
  map of zeros. The code computes \<open>(x - min) / (max - min)\<close> without a guard, so on the
  flat \<open>2 \<times> 2\<close> map of value 2 every pixel is \<open>0 / 0\<close>, which is \<open>NaN\<close> and not zero.
\<close>

theorem normalize_depth_flat_map_is_nan:
  "normalize_depth (fgrid [[2, 2], [2, 2]]) = Inr [[NaN, NaN], [NaN, NaN]]"
  by (simp add: normalize_depth_def fgrid_def fmin2_def fmax2_def fsub_def float32_overflow_def)

text \<open>
  C6, as stated, fails when the range of the map overflows. The map of one row
  \<open>[-2\<^sup>1\<^sup>2\<^sup>7, 2\<^sup>1\<^sup>2\<^sup>7]\<close> holds two different finite \<^verbatim>\<open>float32\<close> numbers. Its range
  \<open>max - min = 2\<^sup>1\<^sup>2\<^sup>8\<close> is an infinity in \<^verbatim>\<open>float32\<close>, so the second pixel is
  \<open>\<infinity> / \<infinity>\<close>: the normalised map is \<open>[0, NaN]\<close>, which is not within \<open>[0, 1]\<close>, and
  normalising it again gives \<open>[NaN, NaN]\<close>, a different map.
\<close>

theorem normalize_depth_overflow:
  "normalize_depth (fgrid [[- (2 ^ 127), 2 ^ 127]]) = Inr [[Fin 0, NaN]] \<and>
   normalize_depth [[Fin 0, NaN]] = Inr [[NaN, NaN]] \<and>
   \<not> (\<forall>v \<in> set (concat [[Fin 0, NaN]]). in_unit v)"
  by (simp add: normalize_depth_def fgrid_def fmin2_def fmax2_def fsub_def float32_overflow_def
      in_unit_def)

text \<open>
  C6, amended. For a depth map of finite values that are not all equal and whose range
  \<open>max - min\<close> is below the overflow bound of \<^verbatim>\<open>float32\<close>, the normalised map has all
  its values in \<open>[0, 1]\<close> and normalising it again leaves it unchanged.
\<close>

theorem normalize_depth_idempotent:
  assumes a: "a \<in> set (concat g)" and b: "b \<in> set (concat g)" and ab: "a \<noteq> b"
    and range: "Max (set (concat g)) - Min (set (concat g)) < float32_overflow"
  shows "\<exists>y. normalize_depth (fgrid g) = Inr y \<and> normalize_depth y = Inr y \<and>
    (\<forall>v \<in> set (concat y). in_unit v)"
proof -
  define S where "S = set (concat g)"
  define mn where "mn = Min S"
  define mx where "mx = Max S"
  define f where "f = (\<lambda>x. (x - mn) / (mx - mn))"
  define g' where "g' = map (map f) g"
  have fin: "finite S" by (simp add: S_def del: set_concat)
  have ne: "concat g \<noteq> []"
  proof
    assume e: "concat g = []"
    from a show False unfolding e by simp
  qed
  have aS: "a \<in> S" and bS: "b \<in> S" using a b by (simp_all add: S_def)
  have mnS: "mn \<in> S" and mxS: "mx \<in> S"
    using fin aS unfolding mn_def mx_def by (auto intro: Min_in Max_in)
  have lo: "\<And>x. x \<in> S \<Longrightarrow> mn \<le> x" and hi: "\<And>x. x \<in> S \<Longrightarrow> x \<le> mx"
    using fin unfolding mn_def mx_def by auto
  have "mn < mx"
  proof (rule ccontr)
    assume "\<not> mn < mx"
    then have "mx \<le> mn" by simp
    then have "a = mn" "b = mn"
      using lo [OF aS] hi [OF aS] lo [OF bS] hi [OF bS] by auto
    then show False using ab by simp
  qed
  then have pos: "0 < mx - mn" by simp
  have big: "mx - mn < float32_overflow"
    using range unfolding mx_def mn_def S_def .
  have f0: "\<And>x. x \<in> S \<Longrightarrow> 0 \<le> f x" and f1: "\<And>x. x \<in> S \<Longrightarrow> f x \<le> 1"
    using pos lo hi by (simp_all add: f_def)
  have d: "to_float32 (Fin (mx - mn)) = Fin (mx - mn)"
    using pos big float32_overflow_pos by (intro to_float32_Fin) linarith+
  have px: "to_float32 (fdiv (to_float32 (Fin (x - mn))) (to_float32 (Fin (mx - mn)))) = Fin (f x)"
    if x: "x \<in> S" for x
  proof -
    have "0 \<le> x - mn" "x - mn \<le> mx - mn" using lo [OF x] hi [OF x] by simp_all
    then have n: "to_float32 (Fin (x - mn)) = Fin (x - mn)"
      using big float32_overflow_pos by (intro to_float32_Fin) linarith+
    have q: "fdiv (Fin (x - mn)) (Fin (mx - mn)) = Fin (f x)"
      using pos by (simp add: f_def)
    have "to_float32 (Fin (f x)) = Fin (f x)"
      using f0 [OF x] f1 [OF x] float32_overflow_pos by (intro to_float32_Fin) linarith+
    then show ?thesis unfolding n d q .
  qed
  have first: "normalize_depth (fgrid g) = Inr (fgrid g')"
  proof -
    have "map (map (\<lambda>x. to_float32 (fdiv (to_float32 (Fin (x - mn)))
               (to_float32 (Fin (mx - mn)))))) g = map (map (\<lambda>x. Fin (f x))) g"
    proof (rule map_cong [OF refl], rule map_cong [OF refl])
      fix row x assume "row \<in> set g" "x \<in> set row"
      then have "x \<in> S" unfolding S_def by auto
      then show "to_float32 (fdiv (to_float32 (Fin (x - mn))) (to_float32 (Fin (mx - mn))))
        = Fin (f x)" by (rule px)
    qed
    also have "\<dots> = fgrid g'" by (simp add: fgrid_def g'_def comp_def)
    finally show ?thesis
      using normalize_depth_fgrid [OF ne] unfolding mn_def mx_def S_def by simp
  qed
  have S': "set (concat g') = f ` S"
    by (simp add: g'_def concat_map_map S_def del: set_concat)
  have ne': "concat g' \<noteq> []" using ne by (simp add: g'_def concat_map_map)
  have "f mn = 0" by (simp add: f_def)
  then have z: "0 \<in> f ` S" using mnS by force
  have "f mx = 1" using pos by (simp add: f_def)
  then have o: "1 \<in> f ` S" using mxS by force
  have min': "Min (set (concat g')) = 0"
    unfolding S' using fin z f0 by (intro Min_eqI) auto
  have max': "Max (set (concat g')) = 1"
    unfolding S' using fin o f1 by (intro Max_eqI) auto
  have second: "normalize_depth (fgrid g') = Inr (fgrid g')"
  proof -
    have "map (map (\<lambda>y. to_float32 (fdiv (to_float32 (Fin (y - 0)))
               (to_float32 (Fin (1 - 0)))))) g' = map (map Fin) g'"
    proof (rule map_cong [OF refl], rule map_cong [OF refl])
      fix row y assume "row \<in> set g'" "y \<in> set row"
      then have "y \<in> set (concat g')" by auto
      then obtain x where x: "x \<in> S" "y = f x" unfolding S' by blast
      have y: "0 \<le> y" "y \<le> 1" using f0 [OF x(1)] f1 [OF x(1)] x(2) by simp_all
      have 1: "to_float32 (Fin y) = Fin y"
        using y float32_overflow_pos by (intro to_float32_Fin) linarith+
      have 2: "to_float32 (Fin 1) = Fin 1"
        using float32_overflow_pos by (intro to_float32_Fin) linarith+
      have 3: "fdiv (Fin y) (Fin 1) = Fin y" by simp
      show "to_float32 (fdiv (to_float32 (Fin (y - 0))) (to_float32 (Fin (1 - 0)))) = Fin y"
        unfolding diff_zero 1 2 3 ..
    qed
    then show ?thesis
      using normalize_depth_fgrid [OF ne'] unfolding min' max' by (simp add: fgrid_def)
  qed
  have unit: "\<forall>v \<in> set (concat (fgrid g')). in_unit v"
    using f0 f1 by (auto simp: concat_fgrid S' in_unit_def simp del: set_concat)
  show ?thesis using first second unit by blast
qed

theorem normalize_depth_idempotent_witness:
  "\<exists>y. normalize_depth (fgrid [[1, 3], [2, 5]]) = Inr y \<and> normalize_depth y = Inr y \<and>
    (\<forall>v \<in> set (concat y). in_unit v)"
  using normalize_depth_idempotent [of 1 "[[1, 3], [2, 5]]" 3]
  by (simp add: float32_overflow_def)


section \<open>Focus plane: lemmas\<close>

lemma grid_width_map: "grid_width (map (map f) g) = grid_width g"
  by (cases g) (simp_all add: grid_width_def)

lemma center_region_map: "center_region (map (map f) g) = map (map f) (center_region g)"
  by (simp add: center_region_def py_slice_def grid_width_map Let_def take_map drop_map comp_def)

lemma center_region_fgrid: "center_region (fgrid g) = fgrid (center_region g)"
  unfolding fgrid_def by (rule center_region_map)

lemma first_index_less: "v \<in> set xs \<Longrightarrow> first_index v xs < length xs"
  by (induction xs) auto

lemma first_index_nth: "v \<in> set xs \<Longrightarrow> xs ! first_index v xs = v"
  by (induction xs) auto

lemma np_argmax_less: "hist \<noteq> [] \<Longrightarrow> np_argmax hist < length hist"
  unfolding np_argmax_def by (rule first_index_less) (simp add: Max_in)

lemma np_argmax_nth: "hist \<noteq> [] \<Longrightarrow> hist ! np_argmax hist = Max (set hist)"
  unfolding np_argmax_def by (rule first_index_nth) (simp add: Max_in)

lemma np_argmax_unique:
  assumes i: "i < length hist" and u: "\<And>j. j < length hist \<Longrightarrow> j \<noteq> i \<Longrightarrow> hist ! j < hist ! i"
  shows "np_argmax hist = i"
proof (rule ccontr)
  assume ne: "np_argmax hist \<noteq> i"
  have h: "hist \<noteq> []" using i by auto
  have "hist ! i \<le> Max (set hist)" using i by simp
  then have "hist ! i \<le> hist ! np_argmax hist" by (simp add: np_argmax_nth [OF h])
  moreover have "hist ! np_argmax hist < hist ! i"
    using u [OF np_argmax_less [OF h] ne] .
  ultimately show False by simp
qed

lemma sort_nth_mem: "k < length xs \<Longrightarrow> sort xs ! k \<in> set xs"
  by (metis length_sort nth_mem set_sort)

lemma np_median_bounds:
  assumes "xs \<noteq> []"
  shows "\<exists>m. np_median xs = Fin m \<and> Min (set xs) \<le> m \<and> m \<le> Max (set xs)"
proof -
  define n where "n = length xs"
  have n: "0 < n" using assms by (simp add: n_def)
  have b: "\<And>k. k < n \<Longrightarrow> Min (set xs) \<le> sort xs ! k \<and> sort xs ! k \<le> Max (set xs)"
    using sort_nth_mem [of _ xs] by (simp add: n_def)
  show ?thesis
  proof (cases "odd n")
    case True
    then have "np_median xs = Fin (sort xs ! (n div 2))"
      using n by (simp add: np_median_def n_def Let_def)
    moreover have "n div 2 < n" using n by simp
    ultimately show ?thesis using b by blast
  next
    case False
    then have e: "np_median xs = Fin ((sort xs ! (n div 2 - 1) + sort xs ! (n div 2)) / 2)"
      using n by (simp add: np_median_def n_def Let_def)
    have "n div 2 < n" "n div 2 - 1 < n" using n by simp_all
    then have "Min (set xs) \<le> sort xs ! (n div 2)" "sort xs ! (n div 2) \<le> Max (set xs)"
      "Min (set xs) \<le> sort xs ! (n div 2 - 1)" "sort xs ! (n div 2 - 1) \<le> Max (set xs)"
      using b by blast+
    then have "Min (set xs) \<le> (sort xs ! (n div 2 - 1) + sort xs ! (n div 2)) / 2
      \<and> (sort xs ! (n div 2 - 1) + sort xs ! (n div 2)) / 2 \<le> Max (set xs)"
      by simp
    then show ?thesis using e by blast
  qed
qed



lemma focus_plane_fgrid:
  assumes h: "fst (np_histogram (concat (center_region g))) \<noteq> []"
    and e: "np_argmax (fst (np_histogram (concat (center_region g)))) + 1
            < length (snd (np_histogram (concat (center_region g))))"
  shows "find_subject_focus_plane np_histogram (Array2 (fgrid g)) =
     Inr (fdiv (fadd (np_median (concat (center_region g)))
        (Fin ((snd (np_histogram (concat (center_region g)))
                 ! np_argmax (fst (np_histogram (concat (center_region g)))) +
               snd (np_histogram (concat (center_region g)))
                 ! (np_argmax (fst (np_histogram (concat (center_region g)))) + 1)) / 2)))
        (Fin 2))"
proof -
  have c: "concat (center_region (fgrid g)) = map Fin (concat (center_region g))"
    by (simp add: center_region_fgrid concat_fgrid)
  have f: "\<not> (\<exists>v \<in> set (map Fin (concat (center_region g))). \<not> is_finite v)"
    by (auto simp del: set_concat)
  have t: "map the_fin (map Fin (concat (center_region g))) = concat (center_region g)"
    by (simp add: comp_def)
  have e': "\<not> length (snd (np_histogram (concat (center_region g))))
       \<le> np_argmax (fst (np_histogram (concat (center_region g)))) + 1"
    using e by simp
  show ?thesis
    unfolding find_subject_focus_plane_def ndarray.case c Let_def if_not_P [OF f] t
      if_not_P [OF h] if_not_P [OF e']
    by (rule refl)
qed

lemma center_region_empty:
  assumes "length g < 2 \<or> grid_width g < 2"
  shows "concat (center_region g) = []"
proof -
  have a: "3 * n div 4 - n div 4 = 0" if "n < 2" for n :: nat
    using that by (cases n) simp_all
  from assms show ?thesis
  proof
    assume "length g < 2"
    then show ?thesis
      by (simp add: center_region_def py_slice_def Let_def a)
  next
    assume "grid_width g < 2"
    then show ?thesis
      by (simp add: center_region_def py_slice_def Let_def a)
  qed
qed

lemma center_slice_length:
  assumes "2 \<le> n" "length xs = n"
  shows "0 < length (py_slice (n div 4) (3 * n div 4) xs)"
proof -
  have "n div 4 < 3 * n div 4" "n div 4 < n" using assms(1) by linarith+
  then show ?thesis by (simp add: py_slice_def assms(2))
qed

lemma center_region_nonempty:
  assumes r: "rectangular g" and h: "2 \<le> length g" and w: "2 \<le> grid_width g"
  shows "concat (center_region g) \<noteq> []"
proof -
  define rows where "rows = py_slice (length g div 4) (3 * length g div 4) g"
  have l: "0 < length rows"
    unfolding rows_def by (rule center_slice_length [OF h refl])
  then obtain row rest where rr: "rows = row # rest" by (cases rows) simp_all
  have "row \<in> set rows" unfolding rr by simp
  then have "row \<in> set g"
    unfolding rows_def py_slice_def by (auto dest!: in_set_takeD in_set_dropD)
  then have lr: "length row = grid_width g"
    using r unfolding rectangular_def by blast
  have "0 < length (py_slice (grid_width g div 4) (3 * grid_width g div 4) row)"
    by (rule center_slice_length [OF w lr])
  then have "py_slice (grid_width g div 4) (3 * grid_width g div 4) row \<noteq> []" by auto
  moreover have "center_region g =
      py_slice (grid_width g div 4) (3 * grid_width g div 4) row #
      map (py_slice (grid_width g div 4) (3 * grid_width g div 4)) rest"
    by (simp add: center_region_def Let_def rows_def [symmetric] rr)
  ultimately show ?thesis by simp
qed

lemma linspace_nth:
  "j < num \<Longrightarrow> linspace start stop num ! j = start + real j * ((stop - start) / real (num - 1))"
  by (simp add: linspace_def)

lemma length_linspace: "length (linspace start stop num) = num"
  by (simp add: linspace_def)

lemma np_argmax_one_bin:
  assumes "k < 50" "0 < n"
  shows "np_argmax ((replicate 50 0)[k := n]) = k"
proof (rule np_argmax_unique)
  show "k < length ((replicate 50 0)[k := n])" using assms(1) by simp
next
  fix j assume "j < length ((replicate 50 0)[k := n])" "j \<noteq> k"
  then show "(replicate 50 0)[k := n] ! j < (replicate 50 0)[k := n] ! k"
    using assms by simp
qed

lemma focus_plane_constant_crop:
  assumes r: "concat (center_region g) = region" and ne: "region \<noteq> []"
  shows "find_subject_focus_plane (histogram_of_constant c) (Array2 (fgrid g)) =
     Inr (fdiv (fadd (np_median region) (Fin (c + 1 / 100))) (Fin 2))"
proof -
  have n: "0 < length region" using ne by simp
  have k: "np_argmax (fst (histogram_of_constant c region)) = 25"
    unfolding histogram_of_constant_def fst_conv by (rule np_argmax_one_bin [OF _ n]) simp
  have s: "snd (histogram_of_constant c region) = linspace (c - 1 / 2) (c + 1 / 2) 51"
    by (simp add: histogram_of_constant_def)
  have 1: "fst (histogram_of_constant c (concat (center_region g))) \<noteq> []"
    by (simp add: histogram_of_constant_def)
  have 2: "np_argmax (fst (histogram_of_constant c (concat (center_region g)))) + 1
            < length (snd (histogram_of_constant c (concat (center_region g))))"
    unfolding r k s length_linspace by simp
  have m: "(linspace (c - 1 / 2) (c + 1 / 2) 51 ! 25 + linspace (c - 1 / 2) (c + 1 / 2) 51 ! (25 + 1)) / 2
      = c + 1 / 100"
    by (simp add: linspace_nth)
  show ?thesis
    unfolding focus_plane_fgrid [of "histogram_of_constant c" g, OF 1 2] r k s m by (rule refl)
qed

section \<open>Focus plane: claims\<close>




text \<open>
  C8, as stated, fails. The \<open>2 \<times> 2\<close> map below has a central region of one pixel, which is
  below 4 pixels in height and in width. The function raises nothing: the median of the
  region is 0, \<^verbatim>\<open>np.histogram\<close> counts the value in the bin of edges 0 and 0.02, and
  the function returns 0.005.
\<close>

theorem focus_plane_small_region_returns:
  "find_subject_focus_plane (histogram_of_constant 0) (Array2 (fgrid [[0, 1], [1, 1]]))
     = Inr (Fin (1 / 200))"
proof -
  have r: "concat (center_region [[0, 1], [1, 1 :: real]]) = [0]"
    by (simp add: center_region_def py_slice_def grid_width_def)
  have m: "np_median [0] = Fin 0"
    by (simp add: np_median_def)
  show ?thesis
    unfolding focus_plane_constant_crop [OF r, of 0, simplified] m by simp
qed

text \<open>
  C8, amended. The function has no test of the size of the central region and no error
  that names the resolution. Whatever counts and edges \<^verbatim>\<open>np.histogram\<close> returns (at
  least one count, and one edge more than counts): on a depth map of two dimensions
  with finite values, at least two rows and at least two columns, the central region is
  not empty and the function returns a finite number, however small the region; on a
  depth map of two dimensions with fewer than two rows or columns the region is empty and
  the function returns \<open>NaN\<close>; on an array of fewer than two dimensions it raises
  \<^verbatim>\<open>ValueError\<close> at line 82. The last case is the depth map that \<^verbatim>\<open>_estimate_depth\<close>
  passes, after \<^verbatim>\<open>.squeeze()\<close>, for an image that is one pixel high or one pixel wide.
\<close>

theorem focus_plane_no_size_check:
  assumes h: "\<forall>a. fst (np_histogram a) \<noteq> [] \<and>
      length (snd (np_histogram a)) = length (fst (np_histogram a)) + 1"
  shows "(rectangular g \<and> 2 \<le> length g \<and> 2 \<le> grid_width g \<longrightarrow>
       squeeze (fgrid g) = Array2 (fgrid g) \<and>
       (\<exists>x. find_subject_focus_plane np_histogram (Array2 (fgrid g)) = Inr (Fin x))) \<and>
     (length g < 2 \<or> grid_width g < 2 \<longrightarrow>
       find_subject_focus_plane np_histogram (Array2 (fgrid g)) = Inr NaN) \<and>
     (length g = 1 \<or> grid_width g = 1 \<longrightarrow>
       (\<exists>msg. find_subject_focus_plane np_histogram (squeeze (fgrid g)) = Inl (ValueError msg)))"
proof -
  define region where "region = concat (center_region g)"
  have 1: "fst (np_histogram (concat (center_region g))) \<noteq> []"
    using h by blast
  have "np_argmax (fst (np_histogram (concat (center_region g))))
      < length (fst (np_histogram (concat (center_region g))))"
    by (rule np_argmax_less [OF 1])
  moreover have "length (snd (np_histogram (concat (center_region g))))
      = length (fst (np_histogram (concat (center_region g)))) + 1"
    using h by blast
  ultimately have 2: "np_argmax (fst (np_histogram (concat (center_region g)))) + 1
            < length (snd (np_histogram (concat (center_region g))))"
    by simp
  note f = focus_plane_fgrid [of np_histogram g, OF 1 2]
  have a: "squeeze (fgrid g) = Array2 (fgrid g) \<and>
       (\<exists>x. find_subject_focus_plane np_histogram (Array2 (fgrid g)) = Inr (Fin x))"
    if "rectangular g \<and> 2 \<le> length g \<and> 2 \<le> grid_width g"
  proof -
    have "concat (center_region g) \<noteq> []"
      using that by (intro center_region_nonempty) simp_all
    then obtain m where "np_median (concat (center_region g)) = Fin m"
      using np_median_bounds by blast
    then have "find_subject_focus_plane np_histogram (Array2 (fgrid g)) =
        Inr (Fin ((m + (snd (np_histogram (concat (center_region g)))
                 ! np_argmax (fst (np_histogram (concat (center_region g)))) +
               snd (np_histogram (concat (center_region g)))
                 ! (np_argmax (fst (np_histogram (concat (center_region g)))) + 1)) / 2) / 2))"
      unfolding f by simp
    then have "\<exists>x. find_subject_focus_plane np_histogram (Array2 (fgrid g)) = Inr (Fin x)"
      by (rule exI)
    moreover have "squeeze (fgrid g) = Array2 (fgrid g)"
      using that by (simp add: squeeze_def fgrid_def grid_width_map)
    ultimately show ?thesis by blast
  qed
  have b: "find_subject_focus_plane np_histogram (Array2 (fgrid g)) = Inr NaN"
    if "length g < 2 \<or> grid_width g < 2"
    unfolding f center_region_empty [OF that] by (simp add: np_median_def)
  have c: "\<exists>msg. find_subject_focus_plane np_histogram (squeeze (fgrid g)) = Inl (ValueError msg)"
    if "length g = 1 \<or> grid_width g = 1"
    using that by (auto simp: squeeze_def fgrid_def grid_width_map find_subject_focus_plane_def)
  show ?thesis using a b c by blast
qed

theorem focus_plane_no_size_check_witness:
  "(\<exists>x. find_subject_focus_plane (histogram_of_constant 0) (Array2 (fgrid [[0, 1], [1, 1]]))
        = Inr (Fin x)) \<and>
   find_subject_focus_plane (histogram_of_constant 0) (Array2 (fgrid [[0, 1]])) = Inr NaN \<and>
   (\<exists>msg. find_subject_focus_plane (histogram_of_constant 0) (squeeze (fgrid [[0, 1]]))
        = Inl (ValueError msg))"
  using focus_plane_no_size_check [of "histogram_of_constant 0" "[[0, 1], [1, 1]]"]
    focus_plane_no_size_check [of "histogram_of_constant 0" "[[0, 1]]"]
  by (simp add: histogram_of_constant_def length_linspace rectangular_def grid_width_def)

section \<open>Gaussian smoothing: lemmas\<close>




















section \<open>Blur mask: lemmas\<close>















section \<open>Smoothing of a single row: lemmas\<close>



















section \<open>Blur mask: claims\<close>







section \<open>Blending: lemmas\<close>

lemma trunc_of_nat: "trunc (real n) = int n"
  by (simp add: trunc_def)

lemma astype_to_f32: "astype_uint8 (to_f32 c) = c"
  unfolding to_f32_def astype_uint8.simps trunc_of_nat by simp

lemma stretch_same: "length xs = n \<Longrightarrow> stretch n xs = xs"
  by (simp add: stretch_def)

lemma same_shape_length: "same_shape a b \<Longrightarrow> length a = length b"
  unfolding same_shape_def by (metis length_map)

lemma same_shape_row:
  assumes "same_shape a b" "y < length b"
  shows "length (a ! y) = length (b ! y)"
proof -
  have "map length a ! y = map length b ! y"
    using assms(1) unfolding same_shape_def by simp
  then show ?thesis
    using assms(2) same_shape_length [OF assms(1)] by simp
qed

lemma same_shape_width: "same_shape a b \<Longrightarrow> grid_width a = grid_width b"
  unfolding same_shape_def grid_width_def by (cases a; cases b) simp_all

lemma same_shape_rectangular:
  assumes "same_shape a b" "rectangular b"
  shows "rectangular a"
  unfolding rectangular_def
proof
  fix row assume "row \<in> set a"
  then obtain y where y: "y < length a" "row = a ! y"
    by (metis in_set_conv_nth)
  have yb: "y < length b" using y(1) same_shape_length [OF assms(1)] by simp
  have "length (b ! y) = grid_width b"
    using assms(2) yb unfolding rectangular_def by simp
  then show "length row = grid_width a"
    using same_shape_row [OF assms(1) yb] same_shape_width [OF assms(1)] y(2) by simp
qed

lemma stretch_rows: "rectangular a \<Longrightarrow> map (stretch (grid_width a)) a = a"
  unfolding rectangular_def by (simp add: map_idI stretch_same)

lemma np_zip2_same:
  assumes s: "same_shape a b" and r: "rectangular b"
  shows "np_zip2 f a b = Inr (map2 (map2 f) a b)"
proof -
  have ra: "rectangular a" by (rule same_shape_rectangular [OF s r])
  have l: "length a = length b" by (rule same_shape_length [OF s])
  have w: "grid_width a = grid_width b" by (rule same_shape_width [OF s])
  have a: "stretch (length b) (map (stretch (grid_width b)) a) = a"
    using stretch_rows [OF ra] l w by (simp add: stretch_same)
  have b: "stretch (length b) (map (stretch (grid_width b)) b) = b"
    using stretch_rows [OF r] by (simp add: stretch_same)
  show ?thesis
    unfolding np_zip2_def l w broadcast_dim_def by (simp add: a b)
qed

lemma map2_tab:
  "length a = length b \<Longrightarrow> map2 f a b = map (\<lambda>i. f (a ! i) (b ! i)) [0..<length b]"
  by (rule nth_equalityI) simp_all

lemma grid_map2_tab:
  assumes "same_shape a b"
  shows "map2 (map2 f) a b =
    map (\<lambda>y. map (\<lambda>x. f (a ! y ! x) (b ! y ! x)) [0..<length (b ! y)]) [0..<length b]"
proof -
  have "map2 (map2 f) a b = map (\<lambda>y. map2 f (a ! y) (b ! y)) [0..<length b]"
    by (rule map2_tab) (rule same_shape_length [OF assms])
  also have "\<dots> = map (\<lambda>y. map (\<lambda>x. f (a ! y ! x) (b ! y ! x)) [0..<length (b ! y)]) [0..<length b]"
    by (rule map_cong [OF refl]) (simp add: map2_tab same_shape_row [OF assms])
  finally show ?thesis .
qed

lemma same_shape_tab:
  "same_shape (map (\<lambda>y. map (f y) [0..<length (b ! y)]) [0..<length b]) b"
  unfolding same_shape_def by (rule nth_equalityI) simp_all

lemma same_shape_sym: "same_shape a b \<Longrightarrow> same_shape b a"
  unfolding same_shape_def by simp

lemma same_shape_trans: "same_shape a b \<Longrightarrow> same_shape b c \<Longrightarrow> same_shape a c"
  unfolding same_shape_def by simp

lemma optimized_tab:
  assumes r: "rectangular image_np"
    and g: "GaussianBlur (max_blur_radius * 2 + 1) (real_of_int max_blur_radius / 3) image_np
            = Inr blurred_image"
    and sb: "same_shape blurred_image image_np"
    and sm: "same_shape blur_mask image_np"
  shows "apply_depth_blur_optimized GaussianBlur image_np blur_mask max_blur_radius =
    Inr (map (\<lambda>y. map (\<lambda>x. zip_rgb (blend_channel (blur_mask ! y ! x))
                               (image_np ! y ! x) (blurred_image ! y ! x))
                    [0..<length (image_np ! y)]) [0..<length image_np])"
proof -
  define A where "A = map (\<lambda>y. map (\<lambda>x. map_rgb (\<lambda>c. fmul (fsub (Fin 1) (blur_mask ! y ! x)) (to_f32 c))
     (image_np ! y ! x)) [0..<length (image_np ! y)]) [0..<length image_np]"
  define B where "B = map (\<lambda>y. map (\<lambda>x. map_rgb (\<lambda>c. fmul (blur_mask ! y ! x) (to_f32 c))
     (blurred_image ! y ! x)) [0..<length (image_np ! y)]) [0..<length image_np]"
  have rb: "rectangular blurred_image" by (rule same_shape_rectangular [OF sb r])
  have smb: "same_shape blur_mask blurred_image"
    by (rule same_shape_trans [OF sm same_shape_sym [OF sb]])
  have a: "np_zip2 (\<lambda>m. map_rgb (\<lambda>c. fmul (fsub (Fin 1) m) (to_f32 c))) blur_mask image_np = Inr A"
    unfolding np_zip2_same [OF sm r] grid_map2_tab [OF sm] A_def by (rule refl)
  have lb: "length blurred_image = length image_np" by (rule same_shape_length [OF sb])
  have b0: "map (\<lambda>y. map (\<lambda>x. map_rgb (\<lambda>c. fmul (blur_mask ! y ! x) (to_f32 c))
     (blurred_image ! y ! x)) [0..<length (blurred_image ! y)]) [0..<length blurred_image] = B"
    unfolding B_def lb by (rule map_cong [OF refl]) (simp add: same_shape_row [OF sb])
  have b: "np_zip2 (\<lambda>m. map_rgb (\<lambda>c. fmul m (to_f32 c))) blur_mask blurred_image = Inr B"
    unfolding np_zip2_same [OF smb rb] grid_map2_tab [OF smb] b0 by (rule refl)
  have sB: "same_shape B image_np" unfolding B_def by (rule same_shape_tab)
  have sA: "same_shape A image_np" unfolding A_def by (rule same_shape_tab)
  have sAB: "same_shape A B" by (rule same_shape_trans [OF sA same_shape_sym [OF sB]])
  have rB: "rectangular B" by (rule same_shape_rectangular [OF sB r])
  have lB: "length B = length image_np" by (rule same_shape_length [OF sB])
  have c: "np_zip2 (zip_rgb fadd) A B =
     Inr (map (\<lambda>y. map (\<lambda>x. zip_rgb fadd (A ! y ! x) (B ! y ! x)) [0..<length (image_np ! y)])
       [0..<length image_np])"
    unfolding np_zip2_same [OF sAB rB] grid_map2_tab [OF sAB] lB
    by (simp add: same_shape_row [OF sB] cong: map_cong)
  have px: "map_rgb astype_uint8 (zip_rgb fadd (A ! y ! x) (B ! y ! x)) =
      zip_rgb (blend_channel (blur_mask ! y ! x)) (image_np ! y ! x) (blurred_image ! y ! x)"
    if "y < length image_np" "x < length (image_np ! y)" for y x
    using that unfolding A_def B_def
    by (simp add: zip_rgb_def blend_channel_def rgb.map_sel)
  show ?thesis
    unfolding apply_depth_blur_optimized_def Let_def g
    by (simp add: a b c o_def px cong: map_cong)
qed

lemma grid_tab_id:
  "map (\<lambda>y. map (\<lambda>x. g ! y ! x) [0..<length (g ! y)]) [0..<length g] = g"
  by (rule nth_equalityI) (simp_all add: map_nth)

lemma blend_channel_zero: "blend_channel (Fin 0) c d = c"
proof -
  have "fadd (fmul (fsub (Fin 1) (Fin 0)) (to_f32 c)) (fmul (Fin 0) (to_f32 d)) = to_f32 c"
    by (simp add: to_f32_def fsub_def)
  then show ?thesis
    unfolding blend_channel_def by (simp only: astype_to_f32)
qed

lemma blend_channel_one: "blend_channel (Fin 1) c d = d"
proof -
  have "fadd (fmul (fsub (Fin 1) (Fin 1)) (to_f32 c)) (fmul (Fin 1) (to_f32 d)) = to_f32 d"
    by (simp add: to_f32_def fsub_def)
  then show ?thesis
    unfolding blend_channel_def by (simp only: astype_to_f32)
qed

lemma blend_pixel_zero: "zip_rgb (blend_channel (Fin 0)) p q = p"
  by (cases p) (simp add: zip_rgb_def blend_channel_zero)

lemma blend_pixel_one: "zip_rgb (blend_channel (Fin 1)) p q = q"
  by (cases q) (simp add: zip_rgb_def blend_channel_one)

lemma same_shape_const: "same_shape (map (map f) g) g"
  unfolding same_shape_def by simp

lemma blend_channel_Fin:
  "blend_channel (Fin m) c d = word_of_int (trunc ((1 - m) * real (unat c) + m * real (unat d)))"
  unfolding blend_channel_def to_f32_def fsub_def by simp

lemma unat_le_255: "real (unat (c :: 8 word)) \<le> 255"
proof -
  have "unat c < 2 ^ 8" using unsigned_less [of c] by simp
  then have "unat c \<le> 255" by simp
  then have "real (unat c) \<le> real 255" by (simp only: of_nat_le_iff)
  then show ?thesis by simp
qed

lemma convex_255:
  fixes m a b :: real
  assumes "0 \<le> m" "m \<le> 1" "0 \<le> a" "a \<le> 255" "0 \<le> b" "b \<le> 255"
  shows "0 \<le> (1 - m) * a + m * b \<and> (1 - m) * a + m * b \<le> 255"
proof -
  have 1: "0 \<le> (1 - m) * a" "0 \<le> m * b" using assms by simp_all
  have 2: "(1 - m) * a \<le> (1 - m) * 255" using assms by (intro mult_left_mono) simp_all
  have 3: "m * b \<le> m * 255" using assms by (intro mult_left_mono) simp_all
  have "(1 - m) * 255 + m * 255 = 255" by (simp add: algebra_simps)
  with 1 2 3 show ?thesis by linarith
qed

lemma blend_channel_floor:
  assumes "0 \<le> m" "m \<le> 1"
  shows "unat (blend_channel (Fin m) c d) = nat \<lfloor>(1 - m) * real (unat c) + m * real (unat d)\<rfloor>"
proof -
  define v where "v = (1 - m) * real (unat c) + m * real (unat d)"
  have b: "0 \<le> v \<and> v \<le> 255"
    unfolding v_def
    by (rule convex_255 [OF assms of_nat_0_le_iff unat_le_255 of_nat_0_le_iff unat_le_255])
  then have t: "trunc v = \<lfloor>v\<rfloor>" by (simp add: trunc_def)
  have f: "0 \<le> \<lfloor>v\<rfloor> \<and> \<lfloor>v\<rfloor> \<le> 255" using b by (simp add: floor_le_iff le_floor_iff)
  have "unat (word_of_int \<lfloor>v\<rfloor> :: 8 word) = nat \<lfloor>v\<rfloor>"
    using f by (simp add: unat_eq_nat_uint uint_word_of_int)
  then show ?thesis
    unfolding blend_channel_Fin v_def [symmetric] t .
qed

lemma blend_channel_truncated:
  assumes "0 \<le> m" "m \<le> 1"
  shows "truncated_blend m c d (blend_channel (Fin m) c d)"
proof -
  define v where "v = (1 - m) * real (unat c) + m * real (unat d)"
  have b: "0 \<le> v \<and> v \<le> 255"
    unfolding v_def
    by (rule convex_255 [OF assms of_nat_0_le_iff unat_le_255 of_nat_0_le_iff unat_le_255])
  then have f: "0 \<le> \<lfloor>v\<rfloor>" by simp
  have "real (unat (blend_channel (Fin m) c d)) = real (nat \<lfloor>v\<rfloor>)"
    unfolding blend_channel_floor [OF assms] v_def ..
  also have "\<dots> = of_int \<lfloor>v\<rfloor>" using f by simp
  finally have e: "real (unat (blend_channel (Fin m) c d)) = of_int \<lfloor>v\<rfloor>" .
  have "of_int \<lfloor>v\<rfloor> \<le> v" "v - 1 < of_int \<lfloor>v\<rfloor>" by linarith+
  then show ?thesis
    unfolding truncated_blend_def Let_def v_def [symmetric] e by linarith
qed

section \<open>Blending: claims\<close>

text \<open>
  C3. Whenever the blur of the library returns an image of the shape of its input, as
  \<^verbatim>\<open>cv2.GaussianBlur\<close> does, the optimised compositor returns the input image exactly
  for the mask of zeros of the shape of the image, and the blurred image exactly for the
  mask of ones. (When the blur raises, so does the compositor.)
\<close>

theorem optimized_blur_zero_and_one_mask:
  assumes r: "rectangular image_np"
    and g: "GaussianBlur (max_blur_radius * 2 + 1) (real_of_int max_blur_radius / 3) image_np
            = Inr blurred_image"
    and sb: "same_shape blurred_image image_np"
  shows "apply_depth_blur_optimized GaussianBlur image_np
           (map (map (\<lambda>p. Fin 0)) image_np) max_blur_radius = Inr image_np \<and>
         apply_depth_blur_optimized GaussianBlur image_np
           (map (map (\<lambda>p. Fin 1)) image_np) max_blur_radius = Inr blurred_image"
proof
  have "map (\<lambda>y. map (\<lambda>x. zip_rgb (blend_channel (map (map (\<lambda>p. Fin 0)) image_np ! y ! x))
           (image_np ! y ! x) (blurred_image ! y ! x)) [0..<length (image_np ! y)])
          [0..<length image_np] =
        map (\<lambda>y. map (\<lambda>x. image_np ! y ! x) [0..<length (image_np ! y)]) [0..<length image_np]"
    by (rule map_cong [OF refl], rule map_cong [OF refl])
       (simp add: blend_pixel_zero)
  then show "apply_depth_blur_optimized GaussianBlur image_np
      (map (map (\<lambda>p. Fin 0)) image_np) max_blur_radius = Inr image_np"
    unfolding optimized_tab [of image_np GaussianBlur max_blur_radius blurred_image, OF r g sb same_shape_const] grid_tab_id by simp
next
  have l: "length image_np = length blurred_image"
    using same_shape_length [OF sb] by simp
  have "map (\<lambda>y. map (\<lambda>x. zip_rgb (blend_channel (map (map (\<lambda>p. Fin 1)) image_np ! y ! x))
           (image_np ! y ! x) (blurred_image ! y ! x)) [0..<length (image_np ! y)])
          [0..<length image_np] =
        map (\<lambda>y. map (\<lambda>x. blurred_image ! y ! x) [0..<length (blurred_image ! y)])
          [0..<length image_np]"
  proof (rule map_cong [OF refl])
    fix y assume "y \<in> set [0..<length image_np]"
    then have y: "y < length image_np" by simp
    have e: "length (blurred_image ! y) = length (image_np ! y)"
      by (rule same_shape_row [OF sb y])
    show "map (\<lambda>x. zip_rgb (blend_channel (map (map (\<lambda>p. Fin 1)) image_np ! y ! x))
           (image_np ! y ! x) (blurred_image ! y ! x)) [0..<length (image_np ! y)] =
          map (\<lambda>x. blurred_image ! y ! x) [0..<length (blurred_image ! y)]"
      unfolding e using y
      by (intro map_cong [OF refl]) (simp add: blend_pixel_one)
  qed
  then show "apply_depth_blur_optimized GaussianBlur image_np
      (map (map (\<lambda>p. Fin 1)) image_np) max_blur_radius = Inr blurred_image"
    unfolding optimized_tab [of image_np GaussianBlur max_blur_radius blurred_image, OF r g sb same_shape_const] l grid_tab_id by simp
qed

theorem optimized_blur_zero_and_one_mask_witness:
  "apply_depth_blur_optimized (\<lambda>k s img. Inr [[RGB 7 8 9, RGB 1 2 3]])
     [[RGB 10 20 30, RGB 40 50 60]] [[Fin 0, Fin 0]] 15 = Inr [[RGB 10 20 30, RGB 40 50 60]] \<and>
   apply_depth_blur_optimized (\<lambda>k s img. Inr [[RGB 7 8 9, RGB 1 2 3]])
     [[RGB 10 20 30, RGB 40 50 60]] [[Fin 1, Fin 1]] 15 = Inr [[RGB 7 8 9, RGB 1 2 3]]"
  using optimized_blur_zero_and_one_mask
    [of "[[RGB 10 20 30, RGB 40 50 60]]" "\<lambda>k s img. Inr [[RGB 7 8 9, RGB 1 2 3]]" 15
        "[[RGB 7 8 9, RGB 1 2 3]]"]
  by (simp add: rectangular_def grid_width_def same_shape_def)

text \<open>
  C9, as stated, fails. With the mask value 0.75, the original channel 0 and the blurred
  channel 1, the blend is \<open>0.25 \<times> 0 + 0.75 \<times> 1 = 0.75\<close>, computed without rounding error in
  \<^verbatim>\<open>float32\<close>. \<^verbatim>\<open>astype(np.uint8)\<close> drops the fractional part: the output channel is
  0, where rounding to the nearest integer gives 1.
\<close>

theorem blend_truncates:
  "apply_depth_blur_optimized (\<lambda>k s img. Inr [[RGB 1 1 1]]) [[RGB 0 0 0]] [[Fin (3 / 4)]] 15
     = Inr [[RGB 0 0 0]] \<and>
   round_clamp_uint8 ((1 - 3 / 4) * real (unat (0 :: 8 word)) + 3 / 4 * real (unat (1 :: 8 word)))
     = 1"
proof
  have "apply_depth_blur_optimized (\<lambda>k s img. Inr [[RGB 1 1 1]]) [[RGB 0 0 0]] [[Fin (3 / 4)]] 15
    = Inr (map (\<lambda>y. map (\<lambda>x. zip_rgb (blend_channel ([[Fin (3 / 4)]] ! y ! x))
                               ([[RGB 0 0 0]] ! y ! x) ([[RGB 1 1 1]] ! y ! x))
                    [0..<length ([[RGB 0 0 0 :: 8 word rgb]] ! y)]) [0..<length [[RGB 0 0 0 :: 8 word rgb]]])"
    by (rule optimized_tab) (simp_all add: rectangular_def grid_width_def same_shape_def)
  also have "\<dots> = Inr [[RGB 0 0 0]]"
    by (simp add: zip_rgb_def blend_channel_Fin trunc_def)
  finally show "apply_depth_blur_optimized (\<lambda>k s img. Inr [[RGB 1 1 1]]) [[RGB 0 0 0]]
     [[Fin (3 / 4)]] 15 = Inr [[RGB 0 0 0]]" .
next
  show "round_clamp_uint8 ((1 - 3 / 4) * real (unat (0 :: 8 word)) + 3 / 4 * real (unat (1 :: 8 word))) = 1"
    by (simp add: round_clamp_uint8_def round_def)
qed

text \<open>
  C9, amended. The blend is computed in floating point and converted by dropping its
  fractional part; nothing is rounded to the nearest integer and nothing is clamped. For a
  mask value \<open>m\<close> in \<open>[0, 1]\<close> the blend \<open>v = (1 - m) \<times> original + m \<times> blurred\<close> lies in
  \<open>[0, 255]\<close>, and every channel of the output pixel is an integer \<open>c\<close> with
  \<open>v - 1 < c \<le> v\<close>, up to the margin for the rounding of the blend.
\<close>

theorem optimized_blend_is_truncation:
  assumes r: "rectangular image_np"
    and g: "GaussianBlur (max_blur_radius * 2 + 1) (real_of_int max_blur_radius / 3) image_np
            = Inr blurred_image"
    and sb: "same_shape blurred_image image_np"
    and sm: "same_shape blur_mask image_np"
    and y: "y < length image_np" and x: "x < length (image_np ! y)"
    and m: "blur_mask ! y ! x = Fin m" "0 \<le> m" "m \<le> 1"
  shows "\<exists>out. apply_depth_blur_optimized GaussianBlur image_np blur_mask max_blur_radius = Inr out \<and>
    same_shape out image_np \<and>
    truncated_blend m (red (image_np ! y ! x)) (red (blurred_image ! y ! x)) (red (out ! y ! x)) \<and>
    truncated_blend m (green (image_np ! y ! x)) (green (blurred_image ! y ! x))
      (green (out ! y ! x)) \<and>
    truncated_blend m (blue (image_np ! y ! x)) (blue (blurred_image ! y ! x)) (blue (out ! y ! x))"
proof -
  define out where "out = map (\<lambda>y. map (\<lambda>x. zip_rgb (blend_channel (blur_mask ! y ! x))
       (image_np ! y ! x) (blurred_image ! y ! x)) [0..<length (image_np ! y)]) [0..<length image_np]"
  have o: "apply_depth_blur_optimized GaussianBlur image_np blur_mask max_blur_radius = Inr out"
    unfolding out_def
    by (rule optimized_tab [of image_np GaussianBlur max_blur_radius blurred_image, OF r g sb sm])
  have s: "same_shape out image_np"
    unfolding out_def by (rule same_shape_tab)
  have p: "out ! y ! x = zip_rgb (blend_channel (Fin m)) (image_np ! y ! x) (blurred_image ! y ! x)"
    unfolding out_def using y x m(1) by simp
  have t: "truncated_blend m c d (blend_channel (Fin m) c d)" for c d
    by (rule blend_channel_truncated [OF m(2) m(3)])
  have "truncated_blend m (red (image_np ! y ! x)) (red (blurred_image ! y ! x)) (red (out ! y ! x))"
    "truncated_blend m (green (image_np ! y ! x)) (green (blurred_image ! y ! x))
      (green (out ! y ! x))"
    "truncated_blend m (blue (image_np ! y ! x)) (blue (blurred_image ! y ! x)) (blue (out ! y ! x))"
    unfolding p zip_rgb_def by (simp_all add: t)
  with o s show ?thesis by blast
qed

theorem optimized_blend_is_truncation_witness:
  "\<exists>out. apply_depth_blur_optimized (\<lambda>k s img. Inr [[RGB 1 2 255]]) [[RGB 0 1 254]]
       [[Fin (3 / 4)]] 15 = Inr out \<and>
    same_shape out [[RGB 0 1 254 :: 8 word rgb]] \<and>
    truncated_blend (3 / 4) 0 1 (red (out ! 0 ! 0)) \<and>
    truncated_blend (3 / 4) 1 2 (green (out ! 0 ! 0)) \<and>
    truncated_blend (3 / 4) 254 255 (blue (out ! 0 ! 0))"
  using optimized_blend_is_truncation
    [of "[[RGB 0 1 254]]" "\<lambda>k s img. Inr [[RGB 1 2 255]]" 15 "[[RGB 1 2 255]]"
        "[[Fin (3 / 4)]]" 0 0 "3 / 4"]
  by (simp add: rectangular_def grid_width_def same_shape_def)

section \<open>The per-pixel variant: lemmas\<close>

lemma update_frame:
  assumes "(y, x) \<noteq> (y0, x0)"
  shows "(res[y := (res ! y)[x := v]]) ! y0 ! x0 = res ! y0 ! x0"
proof (cases "y = y0")
  case False
  then show ?thesis by simp
next
  case True
  then have x: "x \<noteq> x0" using assms by simp
  show ?thesis
  proof (cases "y < length res")
    case True
    then show ?thesis using \<open>y = y0\<close> x by simp
  next
    case False
    then show ?thesis by (simp add: list_update_beyond)
  qed
qed

lemma update_shape: "same_shape (res[y := (res ! y)[x := v]]) res"
proof (cases "y < length res")
  case True
  have "map length (res[y := (res ! y)[x := v]]) = (map length res)[y := length (res ! y)]"
    by (simp add: map_update)
  also have "\<dots> = map length res"
    using True by (metis length_map list_update_id nth_map)
  finally show ?thesis unfolding same_shape_def .
next
  case False
  then show ?thesis by (simp add: same_shape_def list_update_beyond)
qed

lemma blur_step_frame:
  assumes s: "blur_step L I M (y, x) res = Inr res'"
    and z: "(y, x) = (y0, x0) \<longrightarrow> \<not> flt (Fin 0) (M ! y ! x)"
  shows "res' ! y0 ! x0 = res ! y0 ! x0 \<and> same_shape res' res"
proof (cases "flt (Fin 0) (M ! y ! x)")
  case False
  then have "res' = res" using s by (simp add: blur_step_def)
  then show ?thesis by (simp add: same_shape_def)
next
  case True
  then have ne: "(y, x) \<noteq> (y0, x0)" using z by blast
  from s True obtain v where e: "res' = res[y := (res ! y)[x := v]]"
    by (auto simp: blur_step_def Let_def split: sum.splits)
  show ?thesis unfolding e by (intro conjI update_frame [OF ne] update_shape)
qed

lemma py_for_frame:
  assumes "py_for (blur_step L I M) ps res = Inr res'"
    and "\<forall>p \<in> set ps. p = (y0, x0) \<longrightarrow> \<not> flt (Fin 0) (M ! fst p ! snd p)"
  shows "res' ! y0 ! x0 = res ! y0 ! x0 \<and> same_shape res' res"
  using assms
proof (induction ps arbitrary: res)
  case Nil
  then show ?case by (simp add: same_shape_def)
next
  case (Cons p ps)
  obtain y x where p: "p = (y, x)" by (cases p)
  from Cons.prems(1) obtain mid where mid: "blur_step L I M (y, x) res = Inr mid"
    and rest: "py_for (blur_step L I M) ps mid = Inr res'"
    unfolding p by (auto split: sum.splits)
  have z: "(y, x) = (y0, x0) \<longrightarrow> \<not> flt (Fin 0) (M ! y ! x)"
    using Cons.prems(2) unfolding p by auto
  have 1: "mid ! y0 ! x0 = res ! y0 ! x0 \<and> same_shape mid res"
    by (rule blur_step_frame [OF mid z])
  have 2: "res' ! y0 ! x0 = mid ! y0 ! x0 \<and> same_shape res' mid"
    using Cons.prems(2) by (intro Cons.IH [OF rest]) simp
  show ?case using 1 2 by (simp add: same_shape_def)
qed

lemma map_rgb_astype_to_f32: "map_rgb astype_uint8 (map_rgb to_f32 p) = p"
  by (cases p) (simp add: astype_to_f32)

lemma py_for_returns:
  assumes "\<And>p s. p \<in> set ps \<Longrightarrow> \<exists>s'. body p s = Inr s'"
  shows "\<exists>s'. py_for body ps s = Inr s'"
  using assms
proof (induction ps arbitrary: s)
  case Nil
  show ?case by simp
next
  case (Cons p ps)
  obtain mid where mid: "body p s = Inr mid" using Cons.prems [of p s] by auto
  have "\<exists>s'. py_for body ps mid = Inr s'"
    by (rule Cons.IH) (simp add: Cons.prems)
  then show ?case by (simp add: mid)
qed

lemma trunc_nonneg: "0 \<le> x \<Longrightarrow> 0 \<le> trunc x"
  by (simp add: trunc_def)

lemma blur_step_returns:
  assumes ne: "blur_levels \<noteq> []"
    and shapes: "\<forall>level \<in> set blur_levels. same_shape level image_np"
    and y: "y < length image_np" and x: "x < length (image_np ! y)"
    and v: "blur_mask ! y ! x \<noteq> PInf"
  shows "\<exists>s'. blur_step blur_levels image_np blur_mask (y, x) s = Inr s'"
proof (cases "flt (Fin 0) (blur_mask ! y ! x)")
  case False
  then show ?thesis by (simp add: blur_step_def)
next
  case True
  then obtain r where r: "blur_mask ! y ! x = Fin r" "0 < r"
    using v by (cases "blur_mask ! y ! x") simp_all
  define n where "n = length blur_levels"
  define k where "k = trunc (r * real n)"
  define idx where "idx = min k (int n - 1)"
  have n: "0 < n" using ne by (simp add: n_def)
  have "0 \<le> k" unfolding k_def using r(2) by (intro trunc_nonneg) simp
  then have i: "0 \<le> idx" "idx < int n" using n by (simp_all add: idx_def)
  have pi: "py_int (fmul (Fin r) (Fin (real n))) = Inr k"
    by (simp add: k_def)
  have im: "np_index2 image_np y x = Inr (image_np ! y ! x)"
    using y x by (simp add: np_index2_def)
  have li: "py_index blur_levels idx = Inr (blur_levels ! nat idx)"
    using i by (simp add: py_index_def n_def)
  have "blur_levels ! nat idx \<in> set blur_levels"
    using i by (simp add: n_def)
  then have s: "same_shape (blur_levels ! nat idx) image_np" using shapes by blast
  have ly: "y < length (blur_levels ! nat idx)"
    using y same_shape_length [OF s] by simp
  have lx: "x < length (blur_levels ! nat idx ! y)"
    using x same_shape_row [OF s y] by simp
  have lv: "np_index2 (blur_levels ! nat idx) y x = Inr (blur_levels ! nat idx ! y ! x)"
    using ly lx by (simp add: np_index2_def)
  show ?thesis
    unfolding blur_step_def Let_def fst_conv snd_conv r(1) n_def [symmetric]
    using r(2) by (simp add: pi idx_def [symmetric] im li lv del: py_int.simps fmul.simps)
qed

lemma apply_depth_blur_returns:
  assumes lv: "blur_levels_loop GaussianBlur image_np (blur_radii max_blur_radius)
                 = Inr blur_levels"
    and ne: "blur_levels \<noteq> []"
    and shapes: "\<forall>level \<in> set blur_levels. same_shape level image_np"
    and rect: "rectangular blur_mask"
    and h: "length blur_mask \<le> length image_np"
    and w: "\<forall>y < length blur_mask. grid_width blur_mask \<le> length (image_np ! y)"
    and fin: "\<forall>row \<in> set blur_mask. \<forall>v \<in> set row. v \<noteq> PInf"
  shows "\<exists>out. apply_depth_blur GaussianBlur image_np blur_mask max_blur_radius = Inr out"
proof -
  have step: "\<exists>s'. blur_step blur_levels image_np blur_mask p s = Inr s'"
    if p: "p \<in> set (List.product [0..<length blur_mask] [0..<grid_width blur_mask])" for p s
  proof -
    obtain y x where yx: "p = (y, x)" by (cases p)
    have y: "y < length blur_mask" and x: "x < grid_width blur_mask"
      using p unfolding yx by simp_all
    have row: "blur_mask ! y \<in> set blur_mask" using y by simp
    then have "length (blur_mask ! y) = grid_width blur_mask"
      using rect unfolding rectangular_def by blast
    then have "blur_mask ! y ! x \<in> set (blur_mask ! y)" using x by simp
    then have v: "blur_mask ! y ! x \<noteq> PInf" using fin row by blast
    have yi: "y < length image_np" using y h by simp
    have xi: "x < length (image_np ! y)" using x w y by fastforce
    show ?thesis
      unfolding yx by (rule blur_step_returns [OF ne shapes yi xi v])
  qed
  obtain res where "py_for (blur_step blur_levels image_np blur_mask)
      (List.product [0..<length blur_mask] [0..<grid_width blur_mask])
      (map (map (map_rgb to_f32)) image_np) = Inr res"
    using py_for_returns [of _ "blur_step blur_levels image_np blur_mask", OF step] by blast
  then show ?thesis
    unfolding apply_depth_blur_def Let_def lv by simp
qed

section \<open>The per-pixel variant: claims\<close>

text \<open>
  C10. Whenever the per-pixel variant returns, its output has the shape of the image, and
  every pixel of the image whose mask value is not greater than 0 (a value 0, a negative
  value or \<open>NaN\<close>), or that lies outside the mask, is equal to the pixel of the input:
  only the pixels with a positive mask value are rewritten. The function returns when
  the list of blurred images is not empty, each has the shape of the image, and the mask
  is not larger than the image and holds no infinity (\<open>apply_depth_blur_returns\<close>).
\<close>

theorem naive_blur_keeps_unmasked_pixels:
  assumes ret: "apply_depth_blur GaussianBlur image_np blur_mask max_blur_radius = Inr out"
    and y: "y < length image_np" and x: "x < length (image_np ! y)"
    and z: "y < length blur_mask \<and> x < grid_width blur_mask \<longrightarrow>
            \<not> flt (Fin 0) (blur_mask ! y ! x)"
  shows "same_shape out image_np \<and> out ! y ! x = image_np ! y ! x"
proof -
  define res where "res = map (map (map_rgb to_f32)) image_np"
  from ret obtain L res' where
    run: "py_for (blur_step L image_np blur_mask)
            (List.product [0..<length blur_mask] [0..<grid_width blur_mask]) res = Inr res'"
    and out: "out = map (map (map_rgb astype_uint8)) res'"
    unfolding apply_depth_blur_def Let_def res_def by (auto split: sum.splits)
  have "\<forall>p \<in> set (List.product [0..<length blur_mask] [0..<grid_width blur_mask]).
      p = (y, x) \<longrightarrow> \<not> flt (Fin 0) (blur_mask ! fst p ! snd p)"
    using z by auto
  from py_for_frame [OF run this]
  have px: "res' ! y ! x = res ! y ! x" and sh: "same_shape res' res" by simp_all
  have sr: "same_shape res image_np" unfolding res_def by (rule same_shape_const)
  have s: "same_shape res' image_np" by (rule same_shape_trans [OF sh sr])
  have so: "same_shape out image_np"
    unfolding out by (rule same_shape_trans [OF same_shape_const s])
  have ly: "y < length res'" using y same_shape_length [OF s] by simp
  have lx: "x < length (res' ! y)" using x same_shape_row [OF s y] by simp
  have "out ! y ! x = map_rgb astype_uint8 (res' ! y ! x)"
    unfolding out using ly lx by simp
  also have "\<dots> = map_rgb astype_uint8 (map_rgb to_f32 (image_np ! y ! x))"
    unfolding px res_def using y x by simp
  also have "\<dots> = image_np ! y ! x" by (rule map_rgb_astype_to_f32)
  finally show ?thesis using so by simp
qed

theorem naive_blur_keeps_unmasked_pixels_witness:
  "apply_depth_blur (\<lambda>k s img. Inr [[RGB 0 0 0, RGB 4 8 12]])
     [[RGB 10 20 30, RGB 40 50 60]] [[Fin 0, Fin (1 / 2)]] 3
     = Inr [[RGB 10 20 30, RGB 22 29 36]] \<and>
   [[RGB 10 20 30, RGB 22 29 36 :: 8 word rgb]] ! 0 ! 0 = [[RGB 10 20 30, RGB 40 50 60]] ! 0 ! 0"
proof -
  define G :: gaussian where "G = (\<lambda>k s img. Inr [[RGB 0 0 0, RGB 4 8 12]])"
  define I :: image where "I = [[RGB 10 20 30, RGB 40 50 60]]"
  define M where "M = [[Fin 0, Fin (1 / 2)]]"
  define L :: "fval rgb grid" where
    "L = [[RGB (Fin 0) (Fin 0) (Fin 0), RGB (Fin 4) (Fin 8) (Fin 12)]]"
  define R :: "fval rgb grid" where
    "R = [[RGB (Fin 10) (Fin 20) (Fin 30), RGB (Fin 40) (Fin 50) (Fin 60)]]"
  have radii: "blur_radii 3 = [1, 3]"
    by (simp add: blur_radii_def numeral_2_eq_2)
  have levels: "blur_levels_loop G I [1, 3] = Inr [L, L]"
    by (simp add: G_def L_def to_f32_def)
  have res: "map (map (map_rgb to_f32)) I = R"
    by (simp add: I_def R_def to_f32_def)
  have idx: "List.product [0..<length M] [0..<grid_width M] = [(0, 0), (0, 1)]"
    by (simp add: M_def grid_width_def numeral_2_eq_2)
  have s0: "blur_step [L, L] I M (0, 0) R = Inr R"
    by (simp add: blur_step_def M_def)
  have s1: "blur_step [L, L] I M (0, Suc 0) R =
      Inr [[RGB (Fin 10) (Fin 20) (Fin 30), RGB (Fin 22) (Fin 29) (Fin 36)]]"
    by (simp add: blur_step_def M_def I_def L_def R_def np_index2_def py_index_def
      blend_pixel_def zip_rgb_def to_f32_def fsub_def trunc_def)
  have r: "apply_depth_blur G I M 3 = Inr [[RGB 10 20 30, RGB 22 29 36]]"
    unfolding apply_depth_blur_def Let_def radii levels res idx
    by (simp add: s0 s1 trunc_def)
  have "same_shape [[RGB 10 20 30, RGB 22 29 36 :: 8 word rgb]] I \<and>
      [[RGB 10 20 30, RGB 22 29 36]] ! 0 ! 0 = I ! 0 ! 0"
    by (rule naive_blur_keeps_unmasked_pixels [OF r]) (simp_all add: I_def M_def)
  then show ?thesis using r unfolding G_def I_def M_def by simp
qed

section \<open>The request: lemmas\<close>



section \<open>The request: claims\<close>




end
